theory Spec2Isabelle
  imports Main "HOL-Library.Sublist"
begin

section \<open>Data model of \<^verbatim>\<open>generate_org_chart.py\<close>\<close>

text \<open>
  A roster record is a Python dict read from JSON or taken from the built-in sample.
  It is modelled as an association list from field names to field values, looked up
  with \<open>map_of\<close>. Field values are strings, as in the sample data and in the roster
  schema (id, title, name, phone, email, category, reportsTo); a JSON null, number or
  nested value as a field value is outside this model. Strings are byte lists: a
  character beyond ASCII stands as its UTF-8 bytes.
\<close>

type_synonym person = "(string \<times> string) list"

type_synonym roster = "person list"

datatype error =
    KeyError string
  | ParseError string
  | RenderError string
  | OSError string
  | UnicodeEncodeError string

text \<open>\<^verbatim>\<open>d.get(k)\<close>: the value, or Python's \<open>None\<close>.\<close>

definition get :: "person \<Rightarrow> string \<Rightarrow> string option" where
  "get d k = map_of d k"

text \<open>\<^verbatim>\<open>d[k]\<close>: the value, or \<open>KeyError\<close> when the key is missing.\<close>

definition getitem :: "person \<Rightarrow> string \<Rightarrow> error + string" where
  "getitem d k = (case map_of d k of None \<Rightarrow> Inl (KeyError k) | Some v \<Rightarrow> Inr v)"

text \<open>
  Python's truth value of \<^verbatim>\<open>d.get(k)\<close> for string values: \<open>None\<close> and the
  empty string are false, every other string is true.
\<close>

definition truthy :: "string option \<Rightarrow> bool" where
  "truthy v = (case v of None \<Rightarrow> False | Some s \<Rightarrow> s \<noteq> [])"

text \<open>
  \<^verbatim>\<open>s.replace(old, new)\<close>: every non-overlapping occurrence of \<open>old\<close>, found
  scanning from the left, is replaced by \<open>new\<close>. The scan is \<open>replace_scan\<close>, for a
  non-empty \<open>old\<close>; with an empty \<open>old\<close> Python puts \<open>new\<close> before every character
  and at the end.
\<close>

function replace_scan :: "string \<Rightarrow> string \<Rightarrow> string \<Rightarrow> string" where
  "replace_scan old new s =
     (if old = [] \<or> s = [] then s
      else if prefix old s then new @ replace_scan old new (drop (length old) s)
      else hd s # replace_scan old new (tl s))"
  by pat_completeness auto
termination
  by (relation "measure (\<lambda>(old, new, s). length s)") auto

declare replace_scan.simps [simp del]

definition str_replace :: "string \<Rightarrow> string \<Rightarrow> string \<Rightarrow> string" where
  "str_replace s old new =
     (if old = [] then new @ concat (map (\<lambda>c. c # new) s) else replace_scan old new s)"

subsection \<open>The graph description\<close>

text \<open>
  The \<open>Digraph\<close> object of the graphviz library is modelled by what the program puts
  into it: the statements of its body in the order of the calls (\<open>attr\<close>, \<open>node\<close>,
  \<open>edge\<close>), its comment and its format attribute, which the library sets to
  \<^verbatim>\<open>'pdf'\<close> when the object is made. Serialising the body to DOT text and laying
  it out is the library's work.

  A node statement carries the name given to \<^verbatim>\<open>dot.node\<close> as a whole. An edge
  statement does not: \<^verbatim>\<open>dot.edge\<close> hands each endpoint to the library's
  \<^verbatim>\<open>quote_edge\<close>, which cuts it at its first colon into a node name and a
  port, and the port at its first colon into a port and a compass point
  (\<^verbatim>\<open>str.partition(':')\<close>, twice). So an endpoint is a list of one, two or
  three parts, the first being the name of the node the edge is attached to. The
  library's \<^verbatim>\<open>quote\<close>, which wraps a name in double quotes where DOT needs
  them, is applied alike to the name of a node statement and to the node name of an
  endpoint, and is left out. An attribute statement keeps its attributes in the order
  of the call; the library writes them sorted by key.
\<close>

definition partition_colon :: "string \<Rightarrow> string \<times> string" where
  "partition_colon s =
     (takeWhile (\<lambda>c. c \<noteq> CHR '':'') s, drop 1 (dropWhile (\<lambda>c. c \<noteq> CHR '':'') s))"

definition quote_edge :: "string \<Rightarrow> string list" where
  "quote_edge identifier =
     (let (node, rest) = partition_colon identifier in
      if rest = [] then [node]
      else (let (port, compass) = partition_colon rest in
            if compass = [] then [node, port] else [node, port, compass]))"

datatype stmt =
    Attr "string option" "(string \<times> string) list"
  | Node string string string
  | Edge "string list" "string list"

record digraph =
  comment :: string
  format :: "string option"
  body :: "stmt list"

definition new_digraph :: "string \<Rightarrow> digraph" where
  "new_digraph c = \<lparr>comment = c, format = Some ''pdf'', body = []\<rparr>"

definition attr :: "digraph \<Rightarrow> string option \<Rightarrow> (string \<times> string) list \<Rightarrow> digraph" where
  "attr dot kw attrs = dot\<lparr>body := body dot @ [Attr kw attrs]\<rparr>"

definition node :: "digraph \<Rightarrow> string \<Rightarrow> string \<Rightarrow> string \<Rightarrow> digraph" where
  "node dot name label fillcolor = dot\<lparr>body := body dot @ [Node name label fillcolor]\<rparr>"

definition edge :: "digraph \<Rightarrow> string \<Rightarrow> string \<Rightarrow> digraph" where
  "edge dot tail_name head_name =
     dot\<lparr>body := body dot @ [Edge (quote_edge tail_name) (quote_edge head_name)]\<rparr>"

text \<open>
  The nodes and the edges registered in a graph description, in order: a node with its
  name, label and fill colour, an edge with the names of the two nodes it joins.
\<close>

fun nodes :: "stmt list \<Rightarrow> (string \<times> string \<times> string) list" where
  "nodes [] = []"
| "nodes (Node n l c # ss) = (n, l, c) # nodes ss"
| "nodes (s # ss) = nodes ss"

fun edges :: "stmt list \<Rightarrow> (string \<times> string) list" where
  "edges [] = []"
| "edges (Edge t h # ss) = (hd t, hd h) # edges ss"
| "edges (s # ss) = edges ss"

section \<open>The chart renderer: \<^verbatim>\<open>create_org_chart\<close>\<close>

text \<open>The table \<^verbatim>\<open>colors\<close> of the source, and the lookup with a default.\<close>

definition colors :: "(string \<times> string) list" where
  "colors =
     [(''Command'', ''#ffcccc''),
      (''Operations'', ''#ccddff''),
      (''Logistics Section'', ''#ccffcc''),
      (''24 Hour Lines'', ''#ffccff''),
      (''default'', ''#f0f0f0'')]"

text \<open>
  \<^verbatim>\<open>colors.get(person.get('category', ''), colors['default'])\<close>. The key
  \<open>default\<close> is in the table, so \<^verbatim>\<open>colors['default']\<close> does not raise.
\<close>

definition fill_color :: "person \<Rightarrow> string" where
  "fill_color person =
     (let category = (case get person ''category'' of None \<Rightarrow> [] | Some c \<Rightarrow> c);
          dflt = (case map_of colors ''default'' of None \<Rightarrow> [] | Some c \<Rightarrow> c)
      in case map_of colors category of None \<Rightarrow> dflt | Some c \<Rightarrow> c)"

text \<open>
  The label of a node, lines 71 to 78. \<^verbatim>\<open>person['title']\<close> is read first and
  raises when the title is missing; \<^verbatim>\<open>person['name']\<close> is read under the
  guard \<^verbatim>\<open>person.get('name')\<close>.
\<close>

definition email_display :: "string \<Rightarrow> string" where
  "email_display email = str_replace email ''@redcross.org'' []"

definition phone_line :: "person \<Rightarrow> string" where
  "phone_line person =
     (if truthy (get person ''phone'')
      then ''<FONT POINT-SIZE='9'>Phone: '' @ the (get person ''phone'') @ ''</FONT><BR/>''
      else [])"

definition email_line :: "person \<Rightarrow> string" where
  "email_line person =
     (if truthy (get person ''email'')
      then ''<FONT POINT-SIZE='9'>Email: '' @ email_display (the (get person ''email''))
             @ ''</FONT>''
      else [])"

definition node_label :: "person \<Rightarrow> error + string" where
  "node_label person =
     (case getitem person ''title'' of
        Inl e \<Rightarrow> Inl e
      | Inr title \<Rightarrow>
          (case getitem person ''name'' of
             Inl e \<Rightarrow> Inl e
           | Inr name \<Rightarrow>
               Inr (''<<B>'' @ title @ ''</B><BR/>''
                    @ ''<B>'' @ name @ ''</B><BR/>''
                    @ phone_line person
                    @ email_line person
                    @ ''>'')))"

text \<open>One turn of the first loop (lines 68 to 84).\<close>

definition add_node :: "digraph \<Rightarrow> person \<Rightarrow> error + digraph" where
  "add_node dot person =
     (if truthy (get person ''name'') then
        (case node_label person of
           Inl e \<Rightarrow> Inl e
         | Inr label \<Rightarrow>
             (let fc = fill_color person in
              case getitem person ''id'' of
                Inl e \<Rightarrow> Inl e
              | Inr i \<Rightarrow> Inr (node dot i label fc)))
      else Inr dot)"

fun add_nodes :: "digraph \<Rightarrow> roster \<Rightarrow> error + digraph" where
  "add_nodes dot [] = Inr dot"
| "add_nodes dot (person # rest) =
     (case add_node dot person of Inl e \<Rightarrow> Inl e | Inr dot' \<Rightarrow> add_nodes dot' rest)"

text \<open>
  \<^verbatim>\<open>next((p for p in roster_data if p['id'] == r), None)\<close>: the first record
  whose id is \<open>r\<close>; reading the id of a record that has none raises.
\<close>

fun find_supervisor :: "roster \<Rightarrow> string \<Rightarrow> error + person option" where
  "find_supervisor [] r = Inr None"
| "find_supervisor (p # ps) r =
     (case getitem p ''id'' of
        Inl e \<Rightarrow> Inl e
      | Inr i \<Rightarrow> if i = r then Inr (Some p) else find_supervisor ps r)"

text \<open>
  One turn of the second loop (lines 87 to 92). A dict is true in Python when it is not
  empty, which is the first half of \<^verbatim>\<open>supervisor and supervisor.get('name')\<close>.
\<close>

definition add_edge :: "roster \<Rightarrow> digraph \<Rightarrow> person \<Rightarrow> error + digraph" where
  "add_edge roster_data dot person =
     (if truthy (get person ''name'') \<and> truthy (get person ''reportsTo'') then
        (case getitem person ''reportsTo'' of
           Inl e \<Rightarrow> Inl e
         | Inr r \<Rightarrow>
             (case find_supervisor roster_data r of
                Inl e \<Rightarrow> Inl e
              | Inr None \<Rightarrow> Inr dot
              | Inr (Some supervisor) \<Rightarrow>
                  if supervisor \<noteq> [] \<and> truthy (get supervisor ''name'') then
                    (case getitem person ''id'' of
                       Inl e \<Rightarrow> Inl e
                     | Inr i \<Rightarrow> Inr (edge dot r i))
                  else Inr dot))
      else Inr dot)"

fun add_edges :: "roster \<Rightarrow> digraph \<Rightarrow> roster \<Rightarrow> error + digraph" where
  "add_edges roster_data dot [] = Inr dot"
| "add_edges roster_data dot (person # rest) =
     (case add_edge roster_data dot person of
        Inl e \<Rightarrow> Inl e
      | Inr dot' \<Rightarrow> add_edges roster_data dot' rest)"

text \<open>The caption of line 95; \<^verbatim>\<open>'\\n'\<close> in the source is a backslash and an n.\<close>

definition bs_n :: string where
  "bs_n = [CHR 0x5C, CHR ''n'']"

definition caption :: string where
  "caption = bs_n @ bs_n @ ''Incident Organization Chart'' @ bs_n
     @ ''FLOCOM - DR 220-25'' @ bs_n
     @ ''Operational Period: 18:00 20/10/2024 to 17:59 21/10/2024'' @ bs_n @ bs_n"

text \<open>Lines 53 to 56: the graph and its global attributes.\<close>

definition initial_graph :: digraph where
  "initial_graph =
     (let dot = new_digraph ''Red Cross Incident Organization Chart'';
          dot = attr dot None [(''rankdir'', ''TB'')];
          dot = attr dot (Some ''node'')
                  [(''shape'', ''box''), (''style'', ''rounded,filled''),
                   (''fontname'', ''Arial''), (''fontsize'', ''10'')];
          dot = attr dot (Some ''edge'') [(''color'', ''gray''), (''arrowsize'', ''0.8'')]
      in dot)"

text \<open>Lines 53 to 96: the graph description built from the roster, before rendering.\<close>

definition build_graph :: "roster \<Rightarrow> error + digraph" where
  "build_graph roster_data =
     (case add_nodes initial_graph roster_data of
        Inl e \<Rightarrow> Inl e
      | Inr dot1 \<Rightarrow>
          (case add_edges roster_data dot1 roster_data of
             Inl e \<Rightarrow> Inl e
           | Inr dot2 \<Rightarrow>
               (let dot3 = attr dot2 None [(''label'', caption)];
                    dot4 = attr dot3 None [(''fontsize'', ''12''), (''labelloc'', ''t'')]
                in Inr dot4)))"

text \<open>
  The message of the two \<^verbatim>\<open>print\<close> calls of lines 106 and 107 starts with
  U+2705 (a check mark), here in UTF-8.
\<close>

definition check_mark :: string where
  "check_mark = [CHR 0xE2, CHR 0x9C, CHR 0x85]"

text \<open>
  The whole function. What it does to the world outside is in two parameters, each
  taking the state \<open>'w\<close> of that world (files, the engine, standard output) and
  returning the new state or the error raised:
  \<^item> \<open>render\<close> is \<^verbatim>\<open>dot.render\<close>, which hands the graph to the external layout
    engine and writes the artifact; it takes the graph, the file name and the format of
    the call when one is given;
  \<^item> \<open>print\<close> is \<^verbatim>\<open>print\<close>, which raises when standard output cannot take the
    message (its encoding has no check mark, or it is closed).
\<close>

definition create_org_chart ::
  "(digraph \<Rightarrow> string \<Rightarrow> string option \<Rightarrow> 'w \<Rightarrow> error + 'w) \<Rightarrow>
     (string \<Rightarrow> 'w \<Rightarrow> error + 'w) \<Rightarrow>
     roster \<Rightarrow> string \<Rightarrow> 'w \<Rightarrow> error + (digraph \<times> 'w)" where
  "create_org_chart render print roster_data output_format w =
     (case build_graph roster_data of
        Inl e \<Rightarrow> Inl e
      | Inr dot \<Rightarrow>
          (let output_filename = ''org_chart'' in
           case render dot output_filename (Some output_format) w of
             Inl e \<Rightarrow> Inl e
           | Inr w1 \<Rightarrow>
               (let dot' = dot\<lparr>format := Some ''svg''\<rparr> in
                case render dot' output_filename None w1 of
                  Inl e \<Rightarrow> Inl e
                | Inr w2 \<Rightarrow>
                    (case print (check_mark @ '' Org chart generated: '' @ output_filename
                                 @ ''.'' @ output_format) w2 of
                       Inl e \<Rightarrow> Inl e
                     | Inr w3 \<Rightarrow>
                         (case print (check_mark @ '' Web version generated: ''
                                      @ output_filename @ ''.svg'') w3 of
                            Inl e \<Rightarrow> Inl e
                          | Inr w4 \<Rightarrow> Inr (dot', w4))))))"

section \<open>The roster loader: \<^verbatim>\<open>load_roster_from_localstorage\<close>\<close>

text \<open>The built-in sample of lines 18 to 39.\<close>

definition sample_roster :: roster where
  "sample_roster =
     [[(''id'', ''cmd-dro''), (''title'', ''DRO Director''),
       (''name'', ''Virginia Mewborn''), (''phone'', ''917-670-8334''),
       (''email'', ''Virginia.Mewborn@redcross.org''), (''category'', ''Command'')],
      [(''id'', ''cmd-rcco''), (''title'', ''RCCO''), (''name'', ''Ryan Lock''),
       (''phone'', ''850-354-2342''), (''email'', ''Ryan.Lock3@redcross.org''),
       (''category'', ''Command''), (''reportsTo'', ''cmd-dro'')],
      [(''id'', ''cmd-cos''), (''title'', ''Chief of Staff''),
       (''name'', ''Janice Vannatta''), (''phone'', ''601-325-3656''),
       (''email'', ''Janice.Vannatta4@redcross.org''), (''category'', ''Command''),
       (''reportsTo'', ''cmd-dro'')],
      [(''id'', ''ops-ad''), (''title'', ''AD Operations''),
       (''name'', ''Patricia DAlessandro''), (''phone'', ''319-404-2096''),
       (''email'', ''Patricia.DAlessandro2@redcross.org''), (''category'', ''Operations''),
       (''reportsTo'', ''cmd-dro'')],
      [(''id'', ''ops-zone1''), (''title'', ''Zone Coordinator-Zone 1''),
       (''name'', ''Rick Schou''), (''phone'', ''980-721-8710''),
       (''email'', ''Rick.Schou@redcross.org''), (''category'', ''Operations''),
       (''reportsTo'', ''ops-ad'')],
      [(''id'', ''ops-zone2''), (''title'', ''Zone Coordinator-Zone 2''),
       (''name'', ''Bene Hunter''), (''phone'', ''941-224-3350''),
       (''email'', ''Bene.Hunter2@redcross.org''), (''category'', ''Operations''),
       (''reportsTo'', ''ops-ad'')],
      [(''id'', ''ops-mass''), (''title'', ''HQ Mass Care Chief''),
       (''name'', ''Brenda Bridges''), (''phone'', ''760-987-5452''),
       (''email'', ''brenda.bridges2@redcross.org''), (''category'', ''Operations''),
       (''reportsTo'', ''ops-ad'')],
      [(''id'', ''log-ad''), (''title'', ''AD Logistics''), (''name'', ''Marvin Williams''),
       (''phone'', ''931-237-3823''), (''email'', ''Marvin.Williams2@redcross.org''),
       (''category'', ''Logistics Section''), (''reportsTo'', ''cmd-dro'')],
      [(''id'', ''log-chief''), (''title'', ''HQ Logistics Chief''),
       (''name'', ''Margenia Hatfield''), (''phone'', ''765-602-9133''),
       (''email'', ''Margenia.Hatfield@redcross.org''),
       (''category'', ''Logistics Section''), (''reportsTo'', ''log-ad'')],
      [(''id'', ''log-transport''), (''title'', ''HQ Transportation Manager''),
       (''name'', ''Lee Meyer''), (''phone'', ''719-749-5672''),
       (''email'', ''Lee.Meyer@redcross.org''), (''category'', ''Logistics Section''),
       (''reportsTo'', ''log-chief'')]]"

text \<open>
  The loader reads the world outside through three parameters:
  \<open>path_exists\<close> is \<^verbatim>\<open>os.path.exists\<close>; \<open>read_text\<close> is opening the file
  and reading it, which gives its text or the error raised (the path is a directory,
  the file is not readable or not decodable); \<open>json_loads\<close> is the parser of
  \<^verbatim>\<open>json.load\<close>, from the text to the parsed list or the error it raises.
  The parser's result is returned as it is. The sample is built before the check and
  returned when there is no file.
\<close>

definition load_roster_from_localstorage ::
  "(string \<Rightarrow> bool) \<Rightarrow> (string \<Rightarrow> error + string) \<Rightarrow> (string \<Rightarrow> error + roster)
     \<Rightarrow> error + roster" where
  "load_roster_from_localstorage path_exists read_text json_loads =
     (if path_exists ''roster.json'' then
        (case read_text ''roster.json'' of
           Inl e \<Rightarrow> Inl e
         | Inr text \<Rightarrow> json_loads text)
      else Inr sample_roster)"

section \<open>The wrapper emitter: \<^verbatim>\<open>create_html_wrapper\<close>\<close>

text \<open>
  The two markers the embedded script searches for: U+1F4DE (a telephone receiver) and
  U+2709 U+FE0F (an envelope), in UTF-8.
\<close>

definition phone_marker :: string where
  "phone_marker = [CHR 0xF0, CHR 0x9F, CHR 0x93, CHR 0x9E]"

definition email_marker :: string where
  "email_marker = [CHR 0xE2, CHR 0x9C, CHR 0x89, CHR 0xEF, CHR 0xB8, CHR 0x8F]"

text \<open>The document of lines 115 to 202, in five parts.\<close>

definition html_style :: string where
  \<open>html_style =
       ''<!DOCTYPE html>\<newline>''
     @ ''<html lang="en">\<newline>''
     @ ''<head>\<newline>''
     @ ''    <meta charset="UTF-8">\<newline>''
     @ ''    <meta name="viewport" content="width=device-width, initial-scale=1.0">\<newline>''
     @ ''    <title>Red Cross Organization Chart</title>\<newline>''
     @ ''    <style>\<newline>''
     @ ''        body {\<newline>''
     @ ''            font-family: Arial, sans-serif;\<newline>''
     @ ''            margin: 0;\<newline>''
     @ ''            padding: 20px;\<newline>''
     @ ''            background-color: #f5f5f5;\<newline>''
     @ ''        }\<newline>''
     @ ''        .header {\<newline>''
     @ ''            background: white;\<newline>''
     @ ''            padding: 20px;\<newline>''
     @ ''            border-bottom: 3px solid #dc2626;\<newline>''
     @ ''            margin-bottom: 20px;\<newline>''
     @ ''        }\<newline>''
     @ ''        .chart-container {\<newline>''
     @ ''            background: white;\<newline>''
     @ ''            padding: 20px;\<newline>''
     @ ''            border-radius: 8px;\<newline>''
     @ ''            box-shadow: 0 2px 4px rgba(0,0,0,0.1);\<newline>''
     @ ''            overflow-x: auto;\<newline>''
     @ ''        }\<newline>''
     @ ''        svg {\<newline>''
     @ ''            max-width: 100%;\<newline>''
     @ ''            height: auto;\<newline>''
     @ ''        }\<newline>''
     @ ''        .footer {\<newline>''
     @ ''            margin-top: 20px;\<newline>''
     @ ''            padding: 20px;\<newline>''
     @ ''            background: white;\<newline>''
     @ ''            border-top: 2px solid #333;\<newline>''
     @ ''        }\<newline>''
     @ ''    </style>\<newline>''\<close>

definition html_script :: string where
  \<open>html_script =
       ''    <script>\<newline>''
     @ ''        // Make phone numbers and emails clickable\<newline>''
     @ ''        window.onload = function() {\<newline>''
     @ ''            const svg = document.querySelector('svg');\<newline>''
     @ ''            if (svg) {\<newline>''
     @ ''                // Find all text elements with phone numbers\<newline>''
     @ ''                const texts = svg.querySelectorAll('text');\<newline>''
     @ ''                texts.forEach(text => {\<newline>''
     @ ''                    const content = text.textContent;\<newline>''
     @ ''                    // Phone number pattern\<newline>''
     @ ''                    if (content && content.includes('' @ [CHR 0x27] @ phone_marker
         @ [CHR 0x27] @ '')) {\<newline>''
     @ ''                        const phone = content.match(/[0-9-]+/);\<newline>''
     @ ''                        if (phone) {\<newline>''
     @ ''                            text.style.cursor = 'pointer';\<newline>''
     @ ''                            text.style.fill = '#2563eb';\<newline>''
     @ ''                            text.onclick = () => window.location.href = 'tel:' + phone[0].replace(/-/g, ''
         @ [CHR 0x27, CHR 0x27] @ '');\<newline>''
     @ ''                        }\<newline>''
     @ ''                    }\<newline>''
     @ ''                    // Email pattern\<newline>''
     @ ''                    if (content && content.includes('' @ [CHR 0x27] @ email_marker
         @ [CHR 0x27] @ '')) {\<newline>''
     @ ''                        text.style.cursor = 'pointer';\<newline>''
     @ ''                        text.style.fill = '#2563eb';\<newline>''
     @ ''                        text.onclick = () => {\<newline>''
     @ ''                            const email = content.replace('' @ [CHR 0x27] @ email_marker
         @ [CHR 0x27] @ '', '' @ [CHR 0x27, CHR 0x27] @ '').trim() + '@redcross.org';\<newline>''
     @ ''                            window.location.href = 'mailto:' + email;\<newline>''
     @ ''                        };\<newline>''
     @ ''                    }\<newline>''
     @ ''                });\<newline>''
     @ ''            }\<newline>''
     @ ''        };\<newline>''
     @ ''    </script>\<newline>''\<close>

definition html_header :: string where
  \<open>html_header =
       ''</head>\<newline>''
     @ ''<body>\<newline>''
     @ ''    <div class="header">\<newline>''
     @ ''        <h1>Incident Organization Chart</h1>\<newline>''
     @ ''        <p><strong>Incident Name:</strong> FLOCOM | <strong>DR Number:</strong> 220-25</p>\<newline>''
     @ ''        <p><strong>Operational Period:</strong> 18:00 20/10/2024 to 17:59 21/10/2024</p>\<newline>''
     @ ''    </div>\<newline>''
     @ ''    \<newline>''
     @ ''    <div class="chart-container">\<newline>''\<close>

definition html_chart :: string where
  \<open>html_chart =
       ''        <object data="org_chart.svg" type="image/svg+xml" width="100%">\<newline>''
     @ ''            <img src="org_chart.svg" alt="Organization Chart" />\<newline>''\<close>

definition html_footer :: string where
  \<open>html_footer =
       ''        </object>\<newline>''
     @ ''    </div>\<newline>''
     @ ''    \<newline>''
     @ ''    <div class="footer">\<newline>''
     @ ''        <p><strong>Prepared By:</strong> Gary Pelletier<br/>Information & Planning</p>\<newline>''
     @ ''        <p>Page 8 of 53</p>\<newline>''
     @ ''    </div>\<newline>''
     @ ''</body>\<newline>''
     @ ''</html>''\<close>

definition html_content :: string where
  "html_content = html_style @ html_script @ html_header @ html_chart @ html_footer"

text \<open>
  \<^verbatim>\<open>create_html_wrapper\<close> opens \<^verbatim>\<open>org_chart.html\<close> for writing, writes
  the document and prints two messages, the first starting with a check mark and the
  second with U+1F4F1 (a mobile phone). Writing the file is the parameter
  \<open>write_text\<close> (file name, text), printing is \<open>print\<close>; both may raise. The argument
  \<open>svg_file\<close> is not read.
\<close>

definition phone_mark :: string where
  "phone_mark = [CHR 0xF0, CHR 0x9F, CHR 0x93, CHR 0xB1]"

definition create_html_wrapper ::
  "(string \<Rightarrow> string \<Rightarrow> 'w \<Rightarrow> error + 'w) \<Rightarrow> (string \<Rightarrow> 'w \<Rightarrow> error + 'w) \<Rightarrow>
     string \<Rightarrow> 'w \<Rightarrow> error + 'w" where
  "create_html_wrapper write_text print svg_file w =
     (case write_text ''org_chart.html'' html_content w of
        Inl e \<Rightarrow> Inl e
      | Inr w1 \<Rightarrow>
          (case print (check_mark @ '' Interactive HTML version generated: org_chart.html'') w1 of
             Inl e \<Rightarrow> Inl e
           | Inr w2 \<Rightarrow> print (phone_mark @ '' Phone numbers and emails are clickable!'') w2))"

text \<open>
  The tests the embedded script makes on the text content of a \<^verbatim>\<open>text\<close>
  element before it attaches a handler. For a phone:
  \<^verbatim>\<open>content && content.includes(marker)\<close> and then a match of
  \<^verbatim>\<open>/[0-9-]+/\<close>, which exists when some character is a digit or a dash.
  For an email: \<^verbatim>\<open>content && content.includes(marker)\<close>.
\<close>

definition phone_handler_attached :: "string \<Rightarrow> bool" where
  "phone_handler_attached content =
     (content \<noteq> [] \<and> sublist phone_marker content
      \<and> filter (\<lambda>c. c \<in> set ''0123456789-'') content \<noteq> [])"

definition email_handler_attached :: "string \<Rightarrow> bool" where
  "email_handler_attached content = (content \<noteq> [] \<and> sublist email_marker content)"

section \<open>Notions used in the statements\<close>

definition has_name :: "person \<Rightarrow> bool" where
  "has_name p = truthy (get p ''name'')"

definition well_formed :: "person \<Rightarrow> bool" where
  "well_formed p = (get p ''id'' \<noteq> None \<and> get p ''title'' \<noteq> None)"

definition node_of :: "person \<Rightarrow> string \<times> string \<times> string" where
  "node_of p = (the (get p ''id''), projr (node_label p), fill_color p)"

definition has_edge :: "roster \<Rightarrow> person \<Rightarrow> bool" where
  "has_edge roster_data p =
     (has_name p \<and> truthy (get p ''reportsTo'')
      \<and> (case find (\<lambda>q. get q ''id'' = get p ''reportsTo'') roster_data of
           None \<Rightarrow> False
         | Some s \<Rightarrow> has_name s))"

definition edge_of :: "person \<Rightarrow> string \<times> string" where
  "edge_of p =
     (hd (quote_edge (the (get p ''reportsTo''))), hd (quote_edge (the (get p ''id''))))"

definition colon_free :: "string \<Rightarrow> bool" where
  "colon_free s = (CHR '':'' \<notin> set s)"

definition null_render :: "digraph \<Rightarrow> string \<Rightarrow> string option \<Rightarrow> unit \<Rightarrow> error + unit" where
  "null_render dot filename fmt w = Inr w"

definition null_print :: "string \<Rightarrow> 'w \<Rightarrow> error + 'w" where
  "null_print message w = Inr w"

type_synonym files = "string \<rightharpoonup> string"

definition store_text :: "string \<Rightarrow> string \<Rightarrow> files \<Rightarrow> error + files" where
  "store_text name text fs = Inr (fs(name \<mapsto> text))"

inductive occurrences_removed :: "string \<Rightarrow> string \<Rightarrow> string \<Rightarrow> bool" for lit where
  none: "\<not> sublist lit s \<Longrightarrow> occurrences_removed lit s s"
| cut: "\<not> sublist lit a \<Longrightarrow> occurrences_removed lit s r \<Longrightarrow>
          occurrences_removed lit (a @ lit @ s) (a @ r)"

definition empty_id_roster :: roster where
  "empty_id_roster =
     [[(''id'', []), (''title'', ''Director''), (''name'', ''Ann'')],
      [(''id'', ''b''), (''title'', ''Deputy''), (''name'', ''Bob''), (''reportsTo'', [])]]"

definition dangling_roster :: roster where
  "dangling_roster =
     [[(''id'', ''a''), (''title'', ''Director''), (''name'', ''Ann'')],
      [(''id'', ''b''), (''title'', ''Deputy''), (''name'', ''Bob''), (''reportsTo'', ''a'')],
      [(''id'', ''c''), (''title'', ''Clerk''), (''name'', ''Cy''), (''reportsTo'', ''zz'')],
      [(''id'', ''d''), (''title'', ''Vacant post'')]]"

text \<open>Two more small rosters on which the theorems are tried.\<close>

definition mixed_roster :: roster where
  "mixed_roster =
     [[(''id'', ''a''), (''title'', ''Director''), (''name'', ''Ann''),
       (''email'', ''ann@redcross.org''), (''category'', ''Command'')],
      [(''id'', ''b''), (''title'', ''Treasurer''), (''name'', ''Bob''),
       (''phone'', ''555-0100''), (''category'', ''Finance''), (''reportsTo'', ''a'')],
      [(''id'', ''c''), (''title'', ''Clerk''), (''name'', ''Cy''), (''reportsTo'', ''a'')]]"

definition missing_title_roster :: roster where
  "missing_title_roster =
     [[(''id'', ''a''), (''title'', ''Director''), (''name'', ''Ann'')],
      [(''id'', ''b''), (''name'', ''Bob''), (''reportsTo'', ''a'')]]"

section \<open>Properties of the graph construction\<close>

lemma nodes_append: "nodes (xs @ ys) = nodes xs @ nodes ys"
  by (induction xs rule: nodes.induct) simp_all

lemma edges_append: "edges (xs @ ys) = edges xs @ edges ys"
  by (induction xs rule: edges.induct) simp_all

lemma add_node_body:
  assumes "add_node dot p = Inr dot'"
  shows "nodes (body dot') = nodes (body dot) @ (if has_name p then [node_of p] else [])"
    and "edges (body dot') = edges (body dot)"
    and "comment dot' = comment dot" and "format dot' = format dot"
  using assms
  by (auto simp: add_node_def has_name_def node_of_def node_def getitem_def get_def
      nodes_append edges_append Let_def split: if_splits sum.splits option.splits)

lemma add_nodes_body:
  assumes "add_nodes dot ps = Inr dot'"
  shows "nodes (body dot') = nodes (body dot) @ map node_of (filter has_name ps)
     \<and> edges (body dot') = edges (body dot)"
  using assms
proof (induction ps arbitrary: dot)
  case Nil
  then show ?case by simp
next
  case (Cons p ps)
  from Cons.prems obtain d where d: "add_node dot p = Inr d" and r: "add_nodes d ps = Inr dot'"
    by (auto split: sum.splits)
  from Cons.IH [OF r] add_node_body [OF d] show ?case by simp
qed

lemma add_edge_body:
  assumes "add_edge rd dot p = Inr dot'"
  shows "nodes (body dot') = nodes (body dot)"
  using assms
  by (auto simp: add_edge_def edge_def nodes_append split: if_splits sum.splits option.splits)

lemma add_edges_nodes:
  assumes "add_edges rd dot ps = Inr dot'"
  shows "nodes (body dot') = nodes (body dot)"
  using assms
proof (induction ps arbitrary: dot)
  case Nil
  then show ?case by simp
next
  case (Cons p ps)
  from Cons.prems obtain d where d: "add_edge rd dot p = Inr d" and r: "add_edges rd d ps = Inr dot'"
    by (auto split: sum.splits)
  from Cons.IH [OF r] add_edge_body [OF d] show ?case by simp
qed

lemma nodes_initial_graph: "nodes (body initial_graph) = []"
  by (simp add: initial_graph_def new_digraph_def attr_def)

lemma edges_initial_graph: "edges (body initial_graph) = []"
  by (simp add: initial_graph_def new_digraph_def attr_def)

lemma build_graph_nodes:
  assumes "build_graph rd = Inr dot"
  shows "nodes (body dot) = map node_of (filter has_name rd)"
proof -
  from assms obtain d1 d2 where d1: "add_nodes initial_graph rd = Inr d1"
    and d2: "add_edges rd d1 rd = Inr d2"
    and dot: "dot = attr (attr d2 None [(''label'', caption)]) None
                 [(''fontsize'', ''12''), (''labelloc'', ''t'')]"
    by (auto simp: build_graph_def Let_def split: sum.splits)
  have "nodes (body dot) = nodes (body d2)"
    by (simp add: dot attr_def nodes_append)
  with add_edges_nodes [OF d2] add_nodes_body [OF d1] nodes_initial_graph
  show ?thesis by simp
qed


lemma create_org_chart_ok:
  assumes "build_graph rd = Inr g"
    and "\<forall>d n f s. \<exists>s'. render d n f s = Inr s'"
    and "\<forall>m s. \<exists>s'. print m s = Inr s'"
  shows "\<exists>w'. create_org_chart render print rd fmt w = Inr (g\<lparr>format := Some ''svg''\<rparr>, w')"
proof -
  let ?m1 = "check_mark @ '' Org chart generated: '' @ ''org_chart'' @ ''.'' @ fmt"
  let ?m2 = "check_mark @ '' Web version generated: '' @ ''org_chart'' @ ''.svg''"
  from assms(2) have "\<exists>s'. render g ''org_chart'' (Some fmt) w = Inr s'"
    by (elim allE)
  then obtain w1 where w1: "render g ''org_chart'' (Some fmt) w = Inr w1" ..
  from assms(2) have
    "\<exists>s'. render (g\<lparr>format := Some ''svg''\<rparr>) ''org_chart'' None w1 = Inr s'"
    by (elim allE)
  then obtain w2 where
    w2: "render (g\<lparr>format := Some ''svg''\<rparr>) ''org_chart'' None w1 = Inr w2" ..
  from assms(3) have "\<exists>s'. print ?m1 w2 = Inr s'" by (elim allE)
  then obtain w3 where w3: "print ?m1 w2 = Inr w3" ..
  from assms(3) have "\<exists>s'. print ?m2 w3 = Inr s'" by (elim allE)
  then obtain w4 where w4: "print ?m2 w3 = Inr w4" ..
  have "create_org_chart render print rd fmt w = Inr (g\<lparr>format := Some ''svg''\<rparr>, w4)"
    unfolding create_org_chart_def Let_def by (simp only: assms(1) w1 w2 w3 w4 sum.case)
  then show ?thesis ..
qed

text \<open>Rosters whose records all carry an id and a title: no lookup fails.\<close>

lemma add_node_wf:
  assumes "well_formed p"
  shows "\<exists>d. add_node dot p = Inr d"
  using assms
  by (auto simp: add_node_def well_formed_def node_label_def getitem_def get_def truthy_def
      Let_def split: option.splits)

lemma add_nodes_wf:
  assumes "\<forall>p\<in>set ps. well_formed p"
  shows "\<exists>d. add_nodes dot ps = Inr d"
  using assms
proof (induction ps arbitrary: dot)
  case Nil
  then show ?case by simp
next
  case (Cons p ps)
  then obtain d where "add_node dot p = Inr d" using add_node_wf by fastforce
  with Cons show ?case by simp
qed

lemma find_supervisor_wf:
  assumes "\<forall>p\<in>set ps. well_formed p"
  shows "find_supervisor ps r = Inr (find (\<lambda>q. get q ''id'' = Some r) ps)"
  using assms
  by (induction ps) (auto simp: well_formed_def getitem_def get_def)

lemma add_edge_wf:
  assumes "\<forall>q\<in>set rd. well_formed q" and "well_formed p"
  shows "add_edge rd dot p =
           Inr (if has_edge rd p
                then dot\<lparr>body := body dot @
                       [Edge (quote_edge (the (get p ''reportsTo''))) (quote_edge (the (get p ''id'')))]\<rparr>
                else dot)"
proof (cases "has_name p \<and> truthy (get p ''reportsTo'')")
  case False
  then show ?thesis by (auto simp: add_edge_def has_edge_def has_name_def)
next
  case True
  then obtain r where r: "get p ''reportsTo'' = Some r" "r \<noteq> []"
    by (auto simp: truthy_def split: option.splits)
  from assms(2) obtain i where i: "get p ''id'' = Some i" by (auto simp: well_formed_def)
  have sup: "\<And>s. find (\<lambda>q. get q ''id'' = Some r) rd = Some s \<Longrightarrow> s \<noteq> []"
    by (auto simp: find_Some_iff get_def)
  show ?thesis using True r i sup
    by (auto simp: add_edge_def has_edge_def has_name_def getitem_def get_def edge_def
        find_supervisor_wf [OF assms(1), unfolded get_def] split: option.splits)
qed

lemma add_edges_wf:
  assumes "\<forall>q\<in>set rd. well_formed q" and "\<forall>p\<in>set ps. well_formed p"
  shows "\<exists>d. add_edges rd dot ps = Inr d
           \<and> edges (body d) = edges (body dot) @ map edge_of (filter (has_edge rd) ps)"
  using assms(2)
proof (induction ps arbitrary: dot)
  case Nil
  then show ?case by simp
next
  case (Cons p ps)
  have p: "well_formed p" using Cons.prems by simp
  let ?d = "if has_edge rd p
            then dot\<lparr>body := body dot @
                   [Edge (quote_edge (the (get p ''reportsTo''))) (quote_edge (the (get p ''id'')))]\<rparr>
            else dot"
  have step: "add_edge rd dot p = Inr ?d" by (rule add_edge_wf [OF assms(1) p])
  from Cons.IH [of ?d] Cons.prems obtain d where
    d: "add_edges rd ?d ps = Inr d"
       "edges (body d) = edges (body ?d) @ map edge_of (filter (has_edge rd) ps)"
    by auto
  show ?case using step d by (auto simp: edges_append edge_of_def)
qed

lemma build_graph_wf:
  assumes "\<forall>p\<in>set rd. well_formed p"
  shows "\<exists>dot. build_graph rd = Inr dot
           \<and> nodes (body dot) = map node_of (filter has_name rd)
           \<and> edges (body dot) = map edge_of (filter (has_edge rd) rd)"
proof -
  from add_nodes_wf [OF assms] obtain d1 where d1: "add_nodes initial_graph rd = Inr d1" by blast
  from add_edges_wf [OF assms assms, of d1] obtain d2 where
    d2: "add_edges rd d1 rd = Inr d2"
    and e2: "edges (body d2) = edges (body d1) @ map edge_of (filter (has_edge rd) rd)" by blast
  let ?dot = "attr (attr d2 None [(''label'', caption)]) None
                 [(''fontsize'', ''12''), (''labelloc'', ''t'')]"
  have b: "build_graph rd = Inr ?dot"
    by (simp add: build_graph_def d1 d2)
  have "edges (body ?dot) = edges (body d2)" by (simp add: attr_def edges_append)
  with e2 add_nodes_body [OF d1] edges_initial_graph
  have "edges (body ?dot) = map edge_of (filter (has_edge rd) rd)" by simp
  with b build_graph_nodes [OF b] show ?thesis by blast
qed

lemma replace_scan_Nil: "replace_scan old new [] = []"
  by (simp add: replace_scan.simps)

lemma replace_scan_hit:
  assumes "old \<noteq> []"
  shows "replace_scan old new (old @ t) = new @ replace_scan old new t"
  using assms by (subst replace_scan.simps) simp

lemma replace_scan_skip:
  assumes "old \<noteq> []" and "\<forall>k<length a. \<not> prefix old (drop k (a @ t))"
  shows "replace_scan old new (a @ t) = a @ replace_scan old new t"
  using assms(2)
proof (induction a)
  case Nil
  then show ?case by simp
next
  case (Cons x a)
  from Cons.prems have no: "\<not> prefix old ((x # a) @ t)" by (metis drop0 length_greater_0_conv list.discI)
  have rest: "\<forall>k<length a. \<not> prefix old (drop k (a @ t))"
  proof (intro allI impI)
    fix k assume "k < length a"
    then have "Suc k < length (x # a)" by simp
    with Cons.prems have "\<not> prefix old (drop (Suc k) ((x # a) @ t))" by blast
    then show "\<not> prefix old (drop k (a @ t))" by simp
  qed
  have "replace_scan old new ((x # a) @ t) = x # replace_scan old new (a @ t)"
    using no assms(1) by (subst replace_scan.simps) simp
  with Cons.IH [OF rest] show ?case by simp
qed

lemma prefix_drop_sublist: "prefix old (drop k s) \<Longrightarrow> sublist old s"
  by (metis append_take_drop_id prefix_def sublist_def)

lemma replace_scan_none:
  assumes "old \<noteq> []" and "\<not> sublist old s"
  shows "replace_scan old new s = s"
proof -
  have "\<forall>k<length s. \<not> prefix old (drop k (s @ []))"
    using assms(2) prefix_drop_sublist by auto
  from replace_scan_skip [OF assms(1) this, of new] show ?thesis
    by (simp add: replace_scan_Nil)
qed

lemma first_occurrence:
  assumes "sublist old s"
  shows "\<exists>a t. s = a @ old @ t \<and> (\<forall>k<length a. \<not> prefix old (drop k s))"
proof -
  from assms obtain ps ss where s: "s = ps @ old @ ss" by (auto simp: sublist_def)
  then have ex: "prefix old (drop (length ps) s)" by simp
  define k0 where "k0 = (LEAST k. prefix old (drop k s))"
  have p0: "prefix old (drop k0 s)" unfolding k0_def using ex by (rule LeastI)
  have le: "k0 \<le> length ps" unfolding k0_def using ex by (rule Least_le)
  have least: "\<forall>k<k0. \<not> prefix old (drop k s)"
    unfolding k0_def using not_less_Least by blast
  from p0 obtain t where t: "drop k0 s = old @ t" by (auto simp: prefix_def)
  have "s = take k0 s @ old @ t" using t by (metis append_take_drop_id)
  moreover have "length (take k0 s) = k0" using le s by simp
  ultimately show ?thesis using least by metis
qed

lemma replace_scan_removes:
  assumes "old \<noteq> []"
  shows "occurrences_removed old s (replace_scan old [] s)"
proof (induction s rule: length_induct)
  case (1 s)
  show ?case
  proof (cases "sublist old s")
    case False
    with assms show ?thesis by (simp add: replace_scan_none occurrences_removed.none)
  next
    case True
    from first_occurrence [OF True] obtain a t where
      s: "s = a @ old @ t" and first: "\<forall>k<length a. \<not> prefix old (drop k s)" by blast
    have na: "\<not> sublist old a"
    proof
      assume "sublist old a"
      then obtain ps ss where a: "a = ps @ old @ ss" by (auto simp: sublist_def)
      then have "prefix old (drop (length ps) s)" using s by simp
      moreover have "length ps < length a" using a assms by simp
      ultimately show False using first by blast
    qed
    have "length t < length s" using s assms by simp
    with 1 have ih: "occurrences_removed old t (replace_scan old [] t)" by blast
    have "replace_scan old [] s = a @ replace_scan old [] t"
      using replace_scan_skip [OF assms, of a "old @ t" "[]"] first s
      by (simp add: replace_scan_hit [OF assms])
    with occurrences_removed.cut [OF na ih] s show ?thesis by simp
  qed
qed

lemma email_display_removes:
  "occurrences_removed ''@redcross.org'' e (email_display e)"
  using replace_scan_removes [of "''@redcross.org''" e]
  by (simp add: email_display_def str_replace_def)

lemma email_display_local:
  assumes "CHR ''@'' \<notin> set local"
  shows "email_display (local @ ''@redcross.org'') = local"
proof -
  let ?lit = "''@redcross.org''"
  have "\<forall>k<length local. \<not> prefix ?lit (drop k (local @ ?lit))"
  proof (intro allI impI)
    fix k assume k: "k < length local"
    then have "drop k (local @ ?lit) = local ! k # drop (Suc k) local @ ?lit"
      by (simp add: Cons_nth_drop_Suc)
    moreover have "local ! k \<noteq> CHR ''@''" using assms k by (metis nth_mem)
    ultimately show "\<not> prefix ?lit (drop k (local @ ?lit))" by simp
  qed
  then have "replace_scan ?lit [] (local @ ?lit) = local @ replace_scan ?lit [] ?lit"
    by (intro replace_scan_skip) simp_all
  moreover have "replace_scan ?lit [] ?lit = []"
    using replace_scan_hit [of ?lit "[]" "[]"] by (simp add: replace_scan_Nil)
  ultimately show ?thesis by (simp add: email_display_def str_replace_def)
qed

lemmas model_defs =
  get_def getitem_def truthy_def has_name_def well_formed_def

lemma distinct_map_eq:
  assumes "distinct (map f xs)" and "x \<in> set xs" and "y \<in> set xs" and "f x = f y"
  shows "x = y"
proof -
  from assms(1) have "inj_on f (set xs)" by (simp add: distinct_map)
  from this assms(4,2,3) show ?thesis by (rule inj_onD)
qed

lemma find_by_id:
  assumes "distinct (map (\<lambda>p. get p ''id'') rd)"
  shows "(case find (\<lambda>q. get q ''id'' = Some P) rd of None \<Rightarrow> False | Some s \<Rightarrow> has_name s)
           \<longleftrightarrow> (\<exists>Q\<in>set rd. get Q ''id'' = Some P \<and> has_name Q)"
proof (cases "find (\<lambda>q. get q ''id'' = Some P) rd")
  case None
  then have no: "\<not> (\<exists>Q\<in>set rd. get Q ''id'' = Some P \<and> has_name Q)"
    by (auto simp: find_None_iff)
  then show ?thesis by (simp only: None option.case simp_thms)
next
  case (Some s)
  then have s: "s \<in> set rd" "get s ''id'' = Some P"
    by (auto simp: find_Some_iff)
  have uniq: "Q = s" if "Q \<in> set rd" "get Q ''id'' = Some P" for Q
    using distinct_map_eq [OF assms that(1) s(1)] that(2) s(2) by simp
  show ?thesis
  proof
    assume "case find (\<lambda>q. get q ''id'' = Some P) rd of None \<Rightarrow> False | Some s \<Rightarrow> has_name s"
    then have "has_name s" by (simp only: Some option.case)
    with s show "\<exists>Q\<in>set rd. get Q ''id'' = Some P \<and> has_name Q" by blast
  next
    assume "\<exists>Q\<in>set rd. get Q ''id'' = Some P \<and> has_name Q"
    then obtain Q where Q: "Q \<in> set rd" "get Q ''id'' = Some P" "has_name Q" by blast
    from uniq [OF Q(1,2)] Q(3) have "has_name s" by simp
    then show "case find (\<lambda>q. get q ''id'' = Some P) rd of None \<Rightarrow> False | Some s \<Rightarrow> has_name s"
      by (simp only: Some option.case)
  qed
qed

lemma has_edge_iff:
  assumes "distinct (map (\<lambda>p. get p ''id'') rd)" and "get R ''reportsTo'' = Some P"
  shows "has_edge rd R \<longleftrightarrow>
           has_name R \<and> P \<noteq> [] \<and> (\<exists>Q\<in>set rd. get Q ''id'' = Some P \<and> has_name Q)"
  unfolding has_edge_def assms(2) find_by_id [OF assms(1)]
  by (simp add: truthy_def)


lemma hd_quote_edge: "colon_free s \<Longrightarrow> hd (quote_edge s) = s"
proof -
  assume "colon_free s"
  then have a: "\<forall>c\<in>set s. c \<noteq> CHR '':''" by (auto simp: colon_free_def)
  then have "takeWhile (\<lambda>c. c \<noteq> CHR '':'') s = s" "dropWhile (\<lambda>c. c \<noteq> CHR '':'') s = []"
    by (simp_all add: takeWhile_eq_all_conv dropWhile_eq_Nil_conv)
  then show ?thesis by (simp add: quote_edge_def partition_colon_def)
qed

lemma edge_of_plain:
  assumes "get p ''reportsTo'' = Some r" and "get p ''id'' = Some j"
    and "colon_free r" and "colon_free j"
  shows "edge_of p = (r, j)"
  using assms by (simp add: edge_of_def hd_quote_edge)

lemma has_edge_target:
  assumes "has_edge rd p"
  shows "\<exists>r q. get p ''reportsTo'' = Some r \<and> r \<noteq> [] \<and> q \<in> set rd \<and> get q ''id'' = Some r
           \<and> has_name q"
proof -
  from assms obtain r where r: "get p ''reportsTo'' = Some r" "r \<noteq> []"
    by (auto simp: has_edge_def truthy_def split: option.splits)
  from assms r obtain q where "find (\<lambda>q. get q ''id'' = Some r) rd = Some q" "has_name q"
    by (auto simp: has_edge_def split: option.splits)
  then have "q \<in> set rd" "get q ''id'' = Some r" "has_name q"
    by (auto simp: find_Some_iff)
  with r show ?thesis by blast
qed

section \<open>Reporting edges\<close>

text \<open>
  Claim C1.  Let every record of the roster carry an \<open>id\<close> and a \<open>title\<close>, let the
  identifiers be pairwise distinct and free of colons, and let neither the layout engine
  nor \<open>print\<close> fail.  Then \<open>create_org_chart\<close> returns a graph, and for a record \<open>R\<close>
  with identifier \<open>i\<close> whose \<open>reportsTo\<close> is \<open>P\<close> the edges into the node \<open>i\<close> are
  described exactly: there is an edge from node \<open>t\<close> to node \<open>i\<close> iff \<open>t = P\<close>, \<open>R\<close> has a
  non-empty name, \<open>P\<close> is not the empty string, and some record of the roster has
  identifier \<open>P\<close> and a non-empty name.  The condition that \<open>P\<close> be non-empty comes from
  the guard \<open>person.get('reportsTo')\<close>, which tests truthiness.  Identifiers with a
  colon are left aside: the library would attach their edges to the node named by the
  part before the colon.
\<close>

theorem edge_registered_iff:
  assumes wf: "\<forall>p\<in>set rd. well_formed p"
    and ids: "distinct (map (\<lambda>p. get p ''id'') rd)"
    and plain: "\<forall>p\<in>set rd. colon_free (the (get p ''id''))"
    and engine: "\<forall>d n f s. \<exists>s'. render d n f s = Inr s'"
    and printer: "\<forall>m s. \<exists>s'. print m s = Inr s'"
    and R: "R \<in> set rd" "get R ''reportsTo'' = Some P" "get R ''id'' = Some i"
  shows "\<exists>dot w'. create_org_chart render print rd fmt w = Inr (dot, w') \<and>
           (\<forall>t. (t, i) \<in> set (edges (body dot)) \<longleftrightarrow>
                  t = P \<and> has_name R \<and> P \<noteq> []
                  \<and> (\<exists>Q\<in>set rd. get Q ''id'' = Some P \<and> has_name Q))"
proof -
  from build_graph_wf [OF wf] obtain g where g: "build_graph rd = Inr g"
    and e: "edges (body g) = map edge_of (filter (has_edge rd) rd)" by blast
  from create_org_chart_ok [OF g engine printer] obtain w' where
    run: "create_org_chart render print rd fmt w = Inr (g\<lparr>format := Some ''svg''\<rparr>, w')" by blast
  have pair: "edge_of p = (the (get p ''reportsTo''), the (get p ''id''))"
    if p: "p \<in> set rd" "has_edge rd p" for p
  proof -
    from has_edge_target [OF p(2)] obtain r q where
      r: "get p ''reportsTo'' = Some r" and q: "q \<in> set rd" "get q ''id'' = Some r" by blast
    from plain q have cr: "colon_free r" by force
    from wf p(1) obtain j where j: "get p ''id'' = Some j" by (auto simp: well_formed_def)
    from plain p(1) j have cj: "colon_free j" by force
    from edge_of_plain [OF r j cr cj] r j show ?thesis by simp
  qed
  have "(t, i) \<in> set (edges (body g)) \<longleftrightarrow>
          t = P \<and> has_name R \<and> P \<noteq> [] \<and> (\<exists>Q\<in>set rd. get Q ''id'' = Some P \<and> has_name Q)" for t
  proof
    assume "(t, i) \<in> set (edges (body g))"
    with e obtain p where p: "p \<in> set rd" "has_edge rd p" "edge_of p = (t, i)" by auto
    from wf p(1) obtain j where j: "get p ''id'' = Some j" by (auto simp: well_formed_def)
    from pair [OF p(1,2)] p(3) j have "j = i" by simp
    with j R(3) have "get p ''id'' = get R ''id''" by simp
    with distinct_map_eq [OF ids p(1) R(1)] have "p = R" by simp
    with pair [OF p(1,2)] p(2,3) R(2) have "t = P" "has_edge rd R" by simp_all
    with has_edge_iff [OF ids R(2)] show "t = P \<and> has_name R \<and> P \<noteq> []
        \<and> (\<exists>Q\<in>set rd. get Q ''id'' = Some P \<and> has_name Q)" by simp
  next
    assume "t = P \<and> has_name R \<and> P \<noteq> [] \<and> (\<exists>Q\<in>set rd. get Q ''id'' = Some P \<and> has_name Q)"
    with has_edge_iff [OF ids R(2)] have h: "has_edge rd R" and t: "t = P" by simp_all
    from pair [OF R(1) h] R(2,3) have "edge_of R = (P, i)" by simp
    moreover have "R \<in> set (filter (has_edge rd) rd)" using R(1) h by simp
    then have "edge_of R \<in> edge_of ` set (filter (has_edge rd) rd)" by (rule imageI)
    ultimately show "(t, i) \<in> set (edges (body g))" using t by (simp add: e)
  qed
  with run show ?thesis by simp
qed

lemma null_render_ok: "\<forall>d n f s. \<exists>s'. null_render d n f s = Inr s'"
  by (simp add: null_render_def)

lemma null_print_ok: "\<forall>m s. \<exists>s'. null_print m s = Inr s'"
  by (simp add: null_print_def)

lemma dangling_roster_wf: "\<forall>p\<in>set dangling_roster. well_formed p"
  by (simp add: dangling_roster_def model_defs)

lemma dangling_roster_ids: "distinct (map (\<lambda>p. get p ''id'') dangling_roster)"
  by (simp add: dangling_roster_def model_defs)

lemma dangling_roster_plain: "\<forall>p\<in>set dangling_roster. colon_free (the (get p ''id''))"
  by (simp add: dangling_roster_def model_defs colon_free_def)

theorem edge_registered_iff_witness:
  "list_all well_formed dangling_roster
   \<and> distinct (map (\<lambda>p. get p ''id'') dangling_roster)
   \<and> list_all (\<lambda>p. colon_free (the (get p ''id''))) dangling_roster
   \<and> (\<forall>d n f s. \<exists>s'. null_render d n f s = Inr s')
   \<and> (\<forall>m s. \<exists>s'. null_print m (s::unit) = Inr s')
   \<and> dangling_roster ! 1 \<in> set dangling_roster
   \<and> get (dangling_roster ! 1) ''reportsTo'' = Some ''a''
   \<and> get (dangling_roster ! 1) ''id'' = Some ''b''
   \<and> (\<exists>dot w'. create_org_chart null_render null_print dangling_roster ''pdf'' () = Inr (dot, w') \<and>
           (\<forall>t. (t, ''b'') \<in> set (edges (body dot)) \<longleftrightarrow>
                  t = ''a'' \<and> has_name (dangling_roster ! 1) \<and> ''a'' \<noteq> []
                  \<and> (\<exists>Q\<in>set dangling_roster. get Q ''id'' = Some ''a'' \<and> has_name Q)))"
proof -
  note wf = dangling_roster_wf and ids = dangling_roster_ids and plain = dangling_roster_plain
  have R: "dangling_roster ! 1 \<in> set dangling_roster"
    "get (dangling_roster ! 1) ''reportsTo'' = Some ''a''"
    "get (dangling_roster ! 1) ''id'' = Some ''b''"
    by (simp_all add: dangling_roster_def model_defs)
  from wf have wf': "list_all well_formed dangling_roster" by (simp only: list_all_iff)
  from plain have plain': "list_all (\<lambda>p. colon_free (the (get p ''id''))) dangling_roster"
    by (simp only: list_all_iff)
  have pr: "\<forall>m s. \<exists>s'. null_print m (s::unit) = Inr s'" by (rule null_print_ok)
  note c = edge_registered_iff [OF wf ids plain null_render_ok pr R, of "''pdf''" "()"]
  from wf' ids plain' null_render_ok pr R c show ?thesis by (intro conjI)
qed

text \<open>
  The empty string as a \<open>reportsTo\<close> value: the second record of \<open>empty_id_roster\<close> reports
  to \<open>""\<close>, the first record has identifier \<open>""\<close> and a name, both are named, and yet
  the graph has no edge at all.
\<close>

theorem empty_reports_to_counterexample:
  "list_all well_formed empty_id_roster
   \<and> distinct (map (\<lambda>p. get p ''id'') empty_id_roster)
   \<and> get (empty_id_roster ! 1) ''reportsTo'' = Some []
   \<and> get (empty_id_roster ! 1) ''id'' = Some ''b''
   \<and> has_name (empty_id_roster ! 1)
   \<and> get (empty_id_roster ! 0) ''id'' = Some []
   \<and> has_name (empty_id_roster ! 0)
   \<and> \<not> isl (create_org_chart null_render null_print empty_id_roster ''pdf'' ())
   \<and> edges (body (fst (projr (create_org_chart null_render null_print empty_id_roster ''pdf'' ())))) = []"
  by (simp add: empty_id_roster_def model_defs create_org_chart_def build_graph_def
      add_node_def add_edge_def node_label_def phone_line_def email_line_def fill_color_def
      colors_def initial_graph_def new_digraph_def attr_def node_def edge_def null_render_def
      null_print_def Let_def)

section \<open>Nodes and dangling references\<close>

lemma has_edge_dangling:
  assumes "get R ''reportsTo'' = Some P" and "\<forall>q\<in>set rd. get q ''id'' \<noteq> Some P"
  shows "\<not> has_edge rd R"
proof
  assume "has_edge rd R"
  from has_edge_target [OF this] assms(1) obtain q where "q \<in> set rd" "get q ''id'' = Some P"
    by auto
  with assms(2) show False by blast
qed

lemma filter_removeAll_skip:
  assumes "\<not> P x"
  shows "filter P (removeAll x xs) = filter P xs"
  using assms by (induction xs) auto

text \<open>
  Claim C2.  Let every record of the roster carry an \<open>id\<close> and a \<open>title\<close>, and let
  neither the layout engine nor \<open>print\<close> fail.  Then \<open>create_org_chart\<close> returns a graph
  whose node statements are, in the order of the roster, exactly one for each record
  with a non-empty name: its identifier, its label and its fill colour (\<open>node_of\<close>).  A
  record whose name is absent or empty gives no node.
\<close>

theorem one_node_per_named_record:
  assumes wf: "\<forall>p\<in>set rd. well_formed p"
    and engine: "\<forall>d n f s. \<exists>s'. render d n f s = Inr s'"
    and printer: "\<forall>m s. \<exists>s'. print m s = Inr s'"
  shows "\<exists>dot w'. create_org_chart render print rd fmt w = Inr (dot, w') \<and>
           nodes (body dot) = map node_of (filter has_name rd)"
proof -
  from build_graph_wf [OF wf] obtain g where g: "build_graph rd = Inr g"
    and n: "nodes (body g) = map node_of (filter has_name rd)" by blast
  from create_org_chart_ok [OF g engine printer] obtain w' where
    run: "create_org_chart render print rd fmt w = Inr (g\<lparr>format := Some ''svg''\<rparr>, w')" by blast
  from n have "nodes (body (g\<lparr>format := Some ''svg''\<rparr>)) = map node_of (filter has_name rd)"
    by simp
  with run show ?thesis by blast
qed

theorem one_node_per_named_record_witness:
  "list_all well_formed dangling_roster
   \<and> (\<forall>d n f s. \<exists>s'. null_render d n f s = Inr s')
   \<and> (\<forall>m s. \<exists>s'. null_print m (s::unit) = Inr s')
   \<and> (\<exists>dot w'. create_org_chart null_render null_print dangling_roster ''pdf'' () = Inr (dot, w') \<and>
           nodes (body dot) = map node_of (filter has_name dangling_roster))
   \<and> map node_of (filter has_name dangling_roster) =
        [(''a'', ''<<B>Director</B><BR/><B>Ann</B><BR/>>'', ''#f0f0f0''),
         (''b'', ''<<B>Deputy</B><BR/><B>Bob</B><BR/>>'', ''#f0f0f0''),
         (''c'', ''<<B>Clerk</B><BR/><B>Cy</B><BR/>>'', ''#f0f0f0'')]"
proof -
  from dangling_roster_wf have wf': "list_all well_formed dangling_roster"
    by (simp only: list_all_iff)
  have pr: "\<forall>m s. \<exists>s'. null_print m (s::unit) = Inr s'" by (rule null_print_ok)
  note c = one_node_per_named_record [OF dangling_roster_wf null_render_ok pr, of "''pdf''" "()"]
  have v: "map node_of (filter has_name dangling_roster) =
        [(''a'', ''<<B>Director</B><BR/><B>Ann</B><BR/>>'', ''#f0f0f0''),
         (''b'', ''<<B>Deputy</B><BR/><B>Bob</B><BR/>>'', ''#f0f0f0''),
         (''c'', ''<<B>Clerk</B><BR/><B>Cy</B><BR/>>'', ''#f0f0f0'')]"
    by (simp add: dangling_roster_def model_defs node_of_def node_label_def phone_line_def
        email_line_def fill_color_def colors_def)
  from wf' null_render_ok pr c v show ?thesis by (intro conjI)
qed

text \<open>
  Claim C3.  Let every record carry an \<open>id\<close> and a \<open>title\<close>, let neither the layout engine
  nor \<open>print\<close> fail, and let \<open>R\<close> be a record whose \<open>reportsTo\<close> is \<open>P\<close> while no record of
  the roster has identifier \<open>P\<close>.  Then \<open>create_org_chart\<close> returns a graph, and \<open>R\<close>
  contributes no edge to it: the edges are those of the other records.  When moreover
  the identifiers are distinct and free of colons, no edge at all ends in the node of
  \<open>R\<close>.
\<close>

theorem dangling_reference_no_edge:
  assumes wf: "\<forall>p\<in>set rd. well_formed p"
    and engine: "\<forall>d n f s. \<exists>s'. render d n f s = Inr s'"
    and printer: "\<forall>m s. \<exists>s'. print m s = Inr s'"
    and R: "R \<in> set rd" "get R ''reportsTo'' = Some P"
    and dangling: "\<forall>q\<in>set rd. get q ''id'' \<noteq> Some P"
  shows "\<exists>dot w'. create_org_chart render print rd fmt w = Inr (dot, w') \<and>
           edges (body dot) = map edge_of (filter (has_edge rd) (removeAll R rd)) \<and>
           (distinct (map (\<lambda>p. get p ''id'') rd) \<and> (\<forall>p\<in>set rd. colon_free (the (get p ''id'')))
            \<longrightarrow> (\<forall>t. (t, the (get R ''id'')) \<notin> set (edges (body dot))))"
proof -
  from build_graph_wf [OF wf] obtain g where g: "build_graph rd = Inr g"
    and e: "edges (body g) = map edge_of (filter (has_edge rd) rd)" by blast
  from create_org_chart_ok [OF g engine printer] obtain w' where
    run: "create_org_chart render print rd fmt w = Inr (g\<lparr>format := Some ''svg''\<rparr>, w')" by blast
  have no: "\<not> has_edge rd R" by (rule has_edge_dangling [OF R(2) dangling])
  from e filter_removeAll_skip [of "has_edge rd" R rd] no
  have e': "edges (body g) = map edge_of (filter (has_edge rd) (removeAll R rd))" by simp
  have head: "(t, the (get R ''id'')) \<notin> set (edges (body g))"
    if ids: "distinct (map (\<lambda>p. get p ''id'') rd)"
      and plain: "\<forall>p\<in>set rd. colon_free (the (get p ''id''))" for t
  proof
    assume "(t, the (get R ''id'')) \<in> set (edges (body g))"
    with e obtain p where p: "p \<in> set rd" "has_edge rd p" "edge_of p = (t, the (get R ''id''))"
      by auto
    from wf p(1) obtain j where j: "get p ''id'' = Some j" by (auto simp: well_formed_def)
    from wf R(1) obtain i where i: "get R ''id'' = Some i" by (auto simp: well_formed_def)
    from plain p(1) j have "colon_free j" by force
    then have "snd (edge_of p) = j" using j by (simp add: edge_of_def hd_quote_edge)
    with p(3) i have "j = i" by simp
    with i j have "get p ''id'' = get R ''id''" by simp
    with distinct_map_eq [OF ids p(1) R(1)] have "p = R" by simp
    with p(2) no show False by simp
  qed
  from run e' head show ?thesis by simp
qed

theorem dangling_reference_no_edge_witness:
  "list_all well_formed dangling_roster
   \<and> (\<forall>d n f s. \<exists>s'. null_render d n f s = Inr s')
   \<and> (\<forall>m s. \<exists>s'. null_print m (s::unit) = Inr s')
   \<and> dangling_roster ! 2 \<in> set dangling_roster
   \<and> get (dangling_roster ! 2) ''reportsTo'' = Some ''zz''
   \<and> list_all (\<lambda>q. get q ''id'' \<noteq> Some ''zz'') dangling_roster
   \<and> distinct (map (\<lambda>p. get p ''id'') dangling_roster)
   \<and> list_all (\<lambda>p. colon_free (the (get p ''id''))) dangling_roster
   \<and> (\<exists>dot w'. create_org_chart null_render null_print dangling_roster ''pdf'' () = Inr (dot, w') \<and>
         edges (body dot) =
           map edge_of (filter (has_edge dangling_roster) (removeAll (dangling_roster ! 2) dangling_roster)) \<and>
         (\<forall>t. (t, the (get (dangling_roster ! 2) ''id'')) \<notin> set (edges (body dot))))
   \<and> map edge_of (filter (has_edge dangling_roster) (removeAll (dangling_roster ! 2) dangling_roster))
       = [(''a'', ''b'')]"
proof -
  from dangling_roster_wf have wf': "list_all well_formed dangling_roster"
    by (simp only: list_all_iff)
  from dangling_roster_plain
  have plain': "list_all (\<lambda>p. colon_free (the (get p ''id''))) dangling_roster"
    by (simp only: list_all_iff)
  have pr: "\<forall>m s. \<exists>s'. null_print m (s::unit) = Inr s'" by (rule null_print_ok)
  have R: "dangling_roster ! 2 \<in> set dangling_roster"
    "get (dangling_roster ! 2) ''reportsTo'' = Some ''zz''"
    by (simp_all add: dangling_roster_def model_defs)
  have dg: "\<forall>q\<in>set dangling_roster. get q ''id'' \<noteq> Some ''zz''"
    by (simp add: dangling_roster_def model_defs)
  then have dg': "list_all (\<lambda>q. get q ''id'' \<noteq> Some ''zz'') dangling_roster"
    by (simp only: list_all_iff)
  from dangling_reference_no_edge [OF dangling_roster_wf null_render_ok pr R dg, of "''pdf''" "()"]
    dangling_roster_ids dangling_roster_plain
  have c: "\<exists>dot w'. create_org_chart null_render null_print dangling_roster ''pdf'' () = Inr (dot, w') \<and>
         edges (body dot) =
           map edge_of (filter (has_edge dangling_roster) (removeAll (dangling_roster ! 2) dangling_roster)) \<and>
         (\<forall>t. (t, the (get (dangling_roster ! 2) ''id'')) \<notin> set (edges (body dot)))"
    by simp
  have v: "map edge_of (filter (has_edge dangling_roster) (removeAll (dangling_roster ! 2) dangling_roster))
       = [(''a'', ''b'')]"
    by (simp add: dangling_roster_def model_defs has_edge_def edge_of_def quote_edge_def
        partition_colon_def)
  from wf' null_render_ok pr R dg' dangling_roster_ids plain' c v show ?thesis by (intro conjI)
qed

section \<open>Fill colours and determinism\<close>

lemma fill_color_command:
  "get p ''category'' = Some ''Command'' \<Longrightarrow> fill_color p = ''#ffcccc''"
  by (simp add: fill_color_def colors_def)

lemma fill_color_default:
  assumes "get p ''category'' = None \<or>
           (\<exists>c. get p ''category'' = Some c \<and>
                c \<notin> {''Command'', ''Operations'', ''Logistics Section'', ''24 Hour Lines''})"
  shows "fill_color p = ''#f0f0f0''"
  using assms by (auto simp: fill_color_def colors_def)

text \<open>
  Claim C5.  Let every record carry an \<open>id\<close> and a \<open>title\<close>, and let neither the layout
  engine nor \<open>print\<close> fail.  Then the node registered for a named record has the colour
  \<open>fill_color\<close> of that record; the colour of a record of category \<open>Command\<close> is
  \<open>#ffcccc\<close>; and the colour of a record with no category, or with a category other than
  the four named in the table, is the default \<open>#f0f0f0\<close>.
\<close>

theorem fill_color_by_category:
  assumes wf: "\<forall>p\<in>set rd. well_formed p"
    and engine: "\<forall>d n f s. \<exists>s'. render d n f s = Inr s'"
    and printer: "\<forall>m s. \<exists>s'. print m s = Inr s'"
  shows "\<exists>dot w'. create_org_chart render print rd fmt w = Inr (dot, w') \<and>
           map (\<lambda>(i, l, c). (i, c)) (nodes (body dot))
             = map (\<lambda>p. (the (get p ''id''), fill_color p)) (filter has_name rd) \<and>
           (\<forall>p. get p ''category'' = Some ''Command'' \<longrightarrow> fill_color p = ''#ffcccc'') \<and>
           (\<forall>p. get p ''category'' = None \<or>
                 (\<exists>c. get p ''category'' = Some c \<and>
                      c \<notin> {''Command'', ''Operations'', ''Logistics Section'', ''24 Hour Lines''})
                 \<longrightarrow> fill_color p = ''#f0f0f0'')"
proof -
  from build_graph_wf [OF wf] obtain g where g: "build_graph rd = Inr g"
    and n: "nodes (body g) = map node_of (filter has_name rd)" by blast
  from create_org_chart_ok [OF g engine printer] obtain w' where
    run: "create_org_chart render print rd fmt w = Inr (g\<lparr>format := Some ''svg''\<rparr>, w')" by blast
  from n have "map (\<lambda>(i, l, c). (i, c)) (nodes (body (g\<lparr>format := Some ''svg''\<rparr>)))
             = map (\<lambda>p. (the (get p ''id''), fill_color p)) (filter has_name rd)"
    by (simp add: node_of_def)
  with run fill_color_command fill_color_default show ?thesis by blast
qed

theorem fill_color_by_category_witness:
  "list_all well_formed mixed_roster
   \<and> (\<forall>d n f s. \<exists>s'. null_render d n f s = Inr s')
   \<and> (\<forall>m s. \<exists>s'. null_print m (s::unit) = Inr s')
   \<and> (\<exists>dot w'. create_org_chart null_render null_print mixed_roster ''pdf'' () = Inr (dot, w') \<and>
         map (\<lambda>(i, l, c). (i, c)) (nodes (body dot))
           = [(''a'', ''#ffcccc''), (''b'', ''#f0f0f0''), (''c'', ''#f0f0f0'')])
   \<and> get (mixed_roster ! 0) ''category'' = Some ''Command''
   \<and> get (mixed_roster ! 1) ''category'' = Some ''Finance''
   \<and> get (mixed_roster ! 2) ''category'' = None"
proof -
  have wf: "\<forall>p\<in>set mixed_roster. well_formed p"
    by (simp add: mixed_roster_def model_defs)
  then have wf': "list_all well_formed mixed_roster" by (simp only: list_all_iff)
  have pr: "\<forall>m s. \<exists>s'. null_print m (s::unit) = Inr s'" by (rule null_print_ok)
  have cat: "get (mixed_roster ! 0) ''category'' = Some ''Command''"
    "get (mixed_roster ! 1) ''category'' = Some ''Finance''"
    "get (mixed_roster ! 2) ''category'' = None"
    by (simp_all add: mixed_roster_def model_defs)
  have named: "filter has_name mixed_roster = [mixed_roster ! 0, mixed_roster ! 1, mixed_roster ! 2]"
    by (simp add: mixed_roster_def model_defs)
  have idv: "the (get (mixed_roster ! 0) ''id'') = ''a''" "the (get (mixed_roster ! 1) ''id'') = ''b''"
    "the (get (mixed_roster ! 2) ''id'') = ''c''"
    by (simp_all add: mixed_roster_def model_defs)
  from fill_color_by_category [OF wf null_render_ok pr, of "''pdf''" "()"] obtain dot w' where
    run: "create_org_chart null_render null_print mixed_roster ''pdf'' () = Inr (dot, w')"
    and m: "map (\<lambda>(i, l, c). (i, c)) (nodes (body dot))
             = map (\<lambda>p. (the (get p ''id''), fill_color p)) (filter has_name mixed_roster)"
    and c1: "\<forall>p. get p ''category'' = Some ''Command'' \<longrightarrow> fill_color p = ''#ffcccc''"
    and c2: "\<forall>p. get p ''category'' = None \<or>
                 (\<exists>c. get p ''category'' = Some c \<and>
                      c \<notin> {''Command'', ''Operations'', ''Logistics Section'', ''24 Hour Lines''})
                 \<longrightarrow> fill_color p = ''#f0f0f0''"
    by blast
  from c1 cat(1) have f0: "fill_color (mixed_roster ! 0) = ''#ffcccc''" by blast
  from c2 [rule_format, of "mixed_roster ! 1"] cat(2)
  have f1: "fill_color (mixed_roster ! 1) = ''#f0f0f0''" by simp
  from c2 [rule_format, of "mixed_roster ! 2"] cat(3)
  have f2: "fill_color (mixed_roster ! 2) = ''#f0f0f0''" by simp
  from m have "map (\<lambda>(i, l, c). (i, c)) (nodes (body dot))
           = [(''a'', ''#ffcccc''), (''b'', ''#f0f0f0''), (''c'', ''#f0f0f0'')]"
    by (simp only: named list.map idv f0 f1 f2)
  with run have c: "\<exists>dot w'. create_org_chart null_render null_print mixed_roster ''pdf'' () = Inr (dot, w') \<and>
         map (\<lambda>(i, l, c). (i, c)) (nodes (body dot))
           = [(''a'', ''#ffcccc''), (''b'', ''#f0f0f0''), (''c'', ''#f0f0f0'')]"
    by (intro exI conjI)
  from wf' null_render_ok pr c cat show ?thesis by (intro conjI)
qed



section \<open>Labels, malformed records and the default roster\<close>

lemma node_label_wf:
  assumes "has_name p" and "get p ''title'' = Some t"
  shows "node_label p =
           Inr (''<<B>'' @ t @ ''</B><BR/><B>'' @ the (get p ''name'') @ ''</B><BR/>''
                @ phone_line p @ email_line p @ ''>'')"
  using assms
  by (auto simp: node_label_def getitem_def get_def has_name_def truthy_def split: option.splits)

lemma email_line_present:
  assumes "get p ''email'' = Some e"
  shows "email_line p =
           (if e = [] then []
            else ''<FONT POINT-SIZE='9'>Email: '' @ email_display e @ ''</FONT>'')"
  using assms by (simp add: email_line_def truthy_def)

text \<open>
  Claim C9.  Let every record carry an \<open>id\<close> and a \<open>title\<close>, let neither the layout engine
  nor \<open>print\<close> fail, and let \<open>R\<close> be a record of the roster with a non-empty name and an
  \<open>email\<close> field \<open>e\<close>.  Then the node registered for \<open>R\<close> has the label made of the title
  line, the name line, the phone line when there is one, and the email line
  \<open>Email: d\<close>, where \<open>d\<close> is \<open>e\<close> with the occurrences of \<open>@redcross.org\<close> removed
  (\<open>occurrences_removed\<close>: cut at the first occurrence, drop it, go on in the rest).  The
  full value \<open>e\<close> is not what is shown.  An empty \<open>e\<close> has nothing to show and gives no
  email line.
\<close>

theorem email_shown_without_domain:
  assumes wf: "\<forall>p\<in>set rd. well_formed p"
    and engine: "\<forall>d n f s. \<exists>s'. render d n f s = Inr s'"
    and printer: "\<forall>m s. \<exists>s'. print m s = Inr s'"
    and R: "R \<in> set rd" "has_name R" "get R ''email'' = Some e"
  shows "\<exists>dot w'. create_org_chart render print rd fmt w = Inr (dot, w') \<and>
           (the (get R ''id''),
            ''<<B>'' @ the (get R ''title'') @ ''</B><BR/><B>'' @ the (get R ''name'') @ ''</B><BR/>''
              @ phone_line R
              @ (if e = [] then []
                 else ''<FONT POINT-SIZE='9'>Email: '' @ email_display e @ ''</FONT>'')
              @ ''>'',
            fill_color R) \<in> set (nodes (body dot)) \<and>
           occurrences_removed ''@redcross.org'' e (email_display e)"
proof -
  from build_graph_wf [OF wf] obtain g where g: "build_graph rd = Inr g"
    and n: "nodes (body g) = map node_of (filter has_name rd)" by blast
  from create_org_chart_ok [OF g engine printer] obtain w' where
    run: "create_org_chart render print rd fmt w = Inr (g\<lparr>format := Some ''svg''\<rparr>, w')" by blast
  from wf R(1) obtain t where t: "get R ''title'' = Some t" by (auto simp: well_formed_def)
  from R(1,2) have "R \<in> set (filter has_name rd)" by simp
  then have "node_of R \<in> node_of ` set (filter has_name rd)" by (rule imageI)
  with n have "node_of R \<in> set (nodes (body (g\<lparr>format := Some ''svg''\<rparr>)))" by simp
  moreover have "node_of R = (the (get R ''id''),
            ''<<B>'' @ the (get R ''title'') @ ''</B><BR/><B>'' @ the (get R ''name'') @ ''</B><BR/>''
              @ phone_line R
              @ (if e = [] then []
                 else ''<FONT POINT-SIZE='9'>Email: '' @ email_display e @ ''</FONT>'')
              @ ''>'',
            fill_color R)"
    unfolding node_of_def node_label_wf [OF R(2) t] email_line_present [OF R(3)] t by simp
  ultimately have "(the (get R ''id''),
            ''<<B>'' @ the (get R ''title'') @ ''</B><BR/><B>'' @ the (get R ''name'') @ ''</B><BR/>''
              @ phone_line R
              @ (if e = [] then []
                 else ''<FONT POINT-SIZE='9'>Email: '' @ email_display e @ ''</FONT>'')
              @ ''>'',
            fill_color R) \<in> set (nodes (body (g\<lparr>format := Some ''svg''\<rparr>)))" by simp
  from run this email_display_removes [of e] show ?thesis by (intro exI conjI)
qed

theorem email_shown_without_domain_witness:
  "list_all well_formed mixed_roster
   \<and> (\<forall>d n f s. \<exists>s'. null_render d n f s = Inr s')
   \<and> (\<forall>m s. \<exists>s'. null_print m (s::unit) = Inr s')
   \<and> mixed_roster ! 0 \<in> set mixed_roster
   \<and> has_name (mixed_roster ! 0)
   \<and> get (mixed_roster ! 0) ''email'' = Some ''ann@redcross.org''
   \<and> (\<exists>dot w'. create_org_chart null_render null_print mixed_roster ''pdf'' () = Inr (dot, w') \<and>
         (''a'', ''<<B>Director</B><BR/><B>Ann</B><BR/><FONT POINT-SIZE='9'>Email: ann</FONT>>'',
          ''#ffcccc'') \<in> set (nodes (body dot)) \<and>
         occurrences_removed ''@redcross.org'' ''ann@redcross.org'' ''ann'')"
proof -
  have wf: "\<forall>p\<in>set mixed_roster. well_formed p"
    by (simp add: mixed_roster_def model_defs)
  then have wf': "list_all well_formed mixed_roster" by (simp only: list_all_iff)
  have pr: "\<forall>m s. \<exists>s'. null_print m (s::unit) = Inr s'" by (rule null_print_ok)
  have R: "mixed_roster ! 0 \<in> set mixed_roster" "has_name (mixed_roster ! 0)"
    "get (mixed_roster ! 0) ''email'' = Some ''ann@redcross.org''"
    by (simp_all add: mixed_roster_def model_defs)
  have d: "email_display ''ann@redcross.org'' = ''ann''"
    using email_display_local [of "''ann''"] by simp
  have v: "the (get (mixed_roster ! 0) ''id'') = ''a''"
    "the (get (mixed_roster ! 0) ''title'') = ''Director''"
    "the (get (mixed_roster ! 0) ''name'') = ''Ann''"
    "phone_line (mixed_roster ! 0) = []"
    "fill_color (mixed_roster ! 0) = ''#ffcccc''"
    by (simp_all add: mixed_roster_def model_defs phone_line_def fill_color_def colors_def)
  from email_shown_without_domain [OF wf null_render_ok pr R, of "''pdf''" "()"]
  have c: "\<exists>dot w'. create_org_chart null_render null_print mixed_roster ''pdf'' () = Inr (dot, w') \<and>
         (''a'', ''<<B>Director</B><BR/><B>Ann</B><BR/><FONT POINT-SIZE='9'>Email: ann</FONT>>'',
          ''#ffcccc'') \<in> set (nodes (body dot)) \<and>
         occurrences_removed ''@redcross.org'' ''ann@redcross.org'' ''ann''"
    unfolding d v by simp
  from wf' null_render_ok pr R c show ?thesis by (intro conjI)
qed

lemma add_node_error:
  assumes "add_node dot p = Inl e"
  shows "e = KeyError ''title'' \<or> e = KeyError ''id''"
  using assms
  by (auto simp: add_node_def node_label_def getitem_def get_def truthy_def Let_def
      split: if_splits option.splits sum.splits)

lemma add_node_missing:
  assumes "has_name p" and "get p ''title'' = None \<or> get p ''id'' = None"
  shows "\<exists>e. add_node dot p = Inl e"
  using assms
  by (auto simp: add_node_def node_label_def getitem_def get_def has_name_def Let_def
      split: option.splits sum.splits)

lemma add_nodes_missing:
  assumes "p \<in> set ps" and "has_name p" and "get p ''title'' = None \<or> get p ''id'' = None"
  shows "\<exists>k. add_nodes dot ps = Inl (KeyError k) \<and> (k = ''title'' \<or> k = ''id'')"
  using assms(1)
proof (induction ps arbitrary: dot)
  case Nil
  then show ?case by simp
next
  case (Cons q ps)
  show ?case
  proof (cases "add_node dot q")
    case (Inl e)
    from add_node_error [OF Inl] Inl show ?thesis by auto
  next
    case (Inr d)
    with add_node_missing [OF assms(2,3), of dot] have "q \<noteq> p" by auto
    with Cons.prems have "p \<in> set ps" by simp
    from Cons.IH [OF this, of d] Inr show ?thesis by simp
  qed
qed

text \<open>
  Claim C7.  When \<open>roster.json\<close> exists and parses to the list \<open>rd\<close>, the loader returns
  \<open>rd\<close> as it is, and nothing is checked: if \<open>rd\<close> has a record with a non-empty name and
  no \<open>title\<close> or no \<open>id\<close>, it is \<open>create_org_chart\<close> that fails, with a \<open>KeyError\<close> for
  \<open>title\<close> or for \<open>id\<close>, whatever the layout engine and \<open>print\<close> would do.
\<close>

theorem malformed_record_fails_in_rendering:
  assumes present: "path_exists ''roster.json''" "read_text ''roster.json'' = Inr text"
    and parsed: "json_loads text = Inr rd"
    and p: "p \<in> set rd" "has_name p" "get p ''title'' = None \<or> get p ''id'' = None"
  shows "load_roster_from_localstorage path_exists read_text json_loads = Inr rd \<and>
         (\<exists>k. create_org_chart render print rd fmt w = Inl (KeyError k) \<and>
              (k = ''title'' \<or> k = ''id''))"
proof -
  have l: "load_roster_from_localstorage path_exists read_text json_loads = Inr rd"
    by (simp add: load_roster_from_localstorage_def present parsed)
  from add_nodes_missing [OF p, of initial_graph] obtain k where
    k: "add_nodes initial_graph rd = Inl (KeyError k)" "k = ''title'' \<or> k = ''id''" by blast
  then have "create_org_chart render print rd fmt w = Inl (KeyError k)"
    by (simp add: create_org_chart_def build_graph_def)
  with l k(2) show ?thesis by blast
qed

theorem malformed_record_fails_in_rendering_witness:
  "(\<lambda>path. path = ''roster.json'') ''roster.json''
   \<and> (\<lambda>path. Inr ''[...]'' :: error + string) ''roster.json'' = Inr ''[...]''
   \<and> (\<lambda>text. Inr missing_title_roster :: error + roster) ''[...]'' = Inr missing_title_roster
   \<and> missing_title_roster ! 1 \<in> set missing_title_roster
   \<and> has_name (missing_title_roster ! 1)
   \<and> get (missing_title_roster ! 1) ''title'' = None
   \<and> load_roster_from_localstorage (\<lambda>path. path = ''roster.json'') (\<lambda>path. Inr ''[...]'')
        (\<lambda>text. Inr missing_title_roster) = Inr missing_title_roster
   \<and> create_org_chart null_render null_print missing_title_roster ''pdf'' ()
        = Inl (KeyError ''title'')"
proof -
  have p: "missing_title_roster ! 1 \<in> set missing_title_roster"
    "has_name (missing_title_roster ! 1)"
    by (simp_all add: missing_title_roster_def model_defs)
  have t: "get (missing_title_roster ! 1) ''title'' = None"
    by (simp add: missing_title_roster_def model_defs)
  then have m: "get (missing_title_roster ! 1) ''title'' = None
      \<or> get (missing_title_roster ! 1) ''id'' = None" ..
  have i: "get (missing_title_roster ! 1) ''id'' \<noteq> None"
    by (simp add: missing_title_roster_def model_defs)
  from malformed_record_fails_in_rendering
    [of "\<lambda>path. path = ''roster.json''" "\<lambda>path. Inr ''[...]''" "''[...]''"
        "\<lambda>text. Inr missing_title_roster" missing_title_roster "missing_title_roster ! 1"
        null_render null_print "''pdf''" "()", OF _ _ _ p m]
  have c: "load_roster_from_localstorage (\<lambda>path. path = ''roster.json'') (\<lambda>path. Inr ''[...]'')
        (\<lambda>text. Inr missing_title_roster) = Inr missing_title_roster \<and>
     (\<exists>k. create_org_chart null_render null_print missing_title_roster ''pdf'' () = Inl (KeyError k)
          \<and> (k = ''title'' \<or> k = ''id''))"
    by simp
  then obtain k where
    k: "create_org_chart null_render null_print missing_title_roster ''pdf'' () = Inl (KeyError k)"
    by blast
  have "create_org_chart null_render null_print missing_title_roster ''pdf'' ()
        = Inl (KeyError ''title'')"
    by (simp add: create_org_chart_def build_graph_def missing_title_roster_def add_node_def
        node_label_def model_defs phone_line_def email_line_def fill_color_def colors_def
        initial_graph_def new_digraph_def attr_def node_def Let_def)
  with c p t show ?thesis by simp
qed

text \<open>
  Claim C4.  When there is no \<open>roster.json\<close>, the loader returns the built-in sample,
  which has 10 records, the first with identifier \<open>cmd-dro\<close> and title \<open>DRO Director\<close>.
\<close>

theorem loader_default_sample:
  assumes "\<not> path_exists ''roster.json''"
  shows "load_roster_from_localstorage path_exists read_text json_loads = Inr sample_roster
         \<and> length sample_roster = 10
         \<and> get (hd sample_roster) ''id'' = Some ''cmd-dro''
         \<and> get (hd sample_roster) ''title'' = Some ''DRO Director''"
  using assms
  by (simp add: load_roster_from_localstorage_def) (simp add: sample_roster_def get_def)

theorem loader_default_sample_witness:
  "\<not> (\<lambda>path. False) ''roster.json''
   \<and> load_roster_from_localstorage (\<lambda>path. False) (\<lambda>path. Inl (OSError path))
        (\<lambda>text. Inl (ParseError text)) = Inr sample_roster
   \<and> length sample_roster = 10
   \<and> get (hd sample_roster) ''id'' = Some ''cmd-dro''
   \<and> get (hd sample_roster) ''title'' = Some ''DRO Director''"
  using loader_default_sample
    [of "\<lambda>path. False" "\<lambda>path. Inl (OSError path)" "\<lambda>text. Inl (ParseError text)"]
  by simp

section \<open>The wrapper document\<close>

lemma html_chart_split:
  \<open>html_chart =
     ''        '' @ ''<object data="org_chart.svg"'' @ '' type="image/svg+xml" width="100%">\<newline>''
     @ ''            '' @ ''<img src="org_chart.svg"'' @ '' alt="Organization Chart" />\<newline>''\<close>
  by (simp add: html_chart_def)

lemma sublist_mid: "s = a @ x @ b \<Longrightarrow> sublist x s"
  by (simp add: sublist_appendI)

text \<open>
  Claim C10.  \<open>create_html_wrapper\<close> does the same for every value of \<open>svg_file\<close>; when
  the write and the prints succeed, \<open>org_chart.html\<close> holds \<open>html_content\<close>; and that
  document refers to the chart under the fixed name \<open>org_chart.svg\<close>, in its \<open>object\<close>
  element and in the \<open>img\<close> element inside it.
\<close>

theorem wrapper_ignores_svg_file:
  \<open>create_html_wrapper write_text print svg_file1 w
     = create_html_wrapper write_text print svg_file2 w
   \<and> create_html_wrapper store_text null_print svg_file1 fs
       = Inr (fs(''org_chart.html'' \<mapsto> html_content))
   \<and> sublist ''<object data="org_chart.svg"'' html_content
   \<and> sublist ''<img src="org_chart.svg"'' html_content\<close>
proof (intro conjI)
  show "create_html_wrapper write_text print svg_file1 w
     = create_html_wrapper write_text print svg_file2 w"
    by (simp add: create_html_wrapper_def)
  show "create_html_wrapper store_text null_print svg_file1 fs
       = Inr (fs(''org_chart.html'' \<mapsto> html_content))"
    by (simp add: create_html_wrapper_def store_text_def null_print_def)
  have \<open>html_content = (html_style @ html_script @ html_header @ ''        '')
          @ ''<object data="org_chart.svg"''
          @ ('' type="image/svg+xml" width="100%">\<newline>''
             @ ''            '' @ ''<img src="org_chart.svg"''
             @ '' alt="Organization Chart" />\<newline>'' @ html_footer)\<close>
    unfolding html_content_def html_chart_split by (simp only: append_assoc)
  then show \<open>sublist ''<object data="org_chart.svg"'' html_content\<close> by (rule sublist_mid)
  have \<open>html_content = (html_style @ html_script @ html_header @ ''        ''
             @ ''<object data="org_chart.svg"''
             @ '' type="image/svg+xml" width="100%">\<newline>'' @ ''            '')
          @ ''<img src="org_chart.svg"''
          @ ('' alt="Organization Chart" />\<newline>'' @ html_footer)\<close>
    unfolding html_content_def html_chart_split by (simp only: append_assoc)
  then show \<open>sublist ''<img src="org_chart.svg"'' html_content\<close> by (rule sublist_mid)
qed

lemma sublist_skip: "sublist x ys \<Longrightarrow> sublist x (a @ ys)"
  by (auto simp: sublist_def) (metis append_assoc)

lemma script_has_markers:
  "sublist phone_marker html_content \<and> sublist email_marker html_content"
  unfolding html_content_def html_script_def append_assoc
  by ((rule conjI | rule sublist_append_rightI | rule sublist_skip)+)

text \<open>
  Claim C6, on the built-in sample.  The label of the first record is the one below; its
  four runs of text are what a \<open>text\<close> element of the drawing can hold.  The script
  attaches a handler to none of them, because it looks for a telephone sign and for an
  envelope sign (both are in the document), and no label of the sample contains either:
  the labels say \<open>Phone:\<close> and \<open>Email:\<close>.  With the signs in front, the same texts would
  get their handlers.
\<close>

theorem script_markers_absent_from_labels:
  "node_label (hd sample_roster) =
     Inr ''<<B>DRO Director</B><BR/><B>Virginia Mewborn</B><BR/><FONT POINT-SIZE='9'>Phone: 917-670-8334</FONT><BR/><FONT POINT-SIZE='9'>Email: Virginia.Mewborn</FONT>>''
   \<and> list_all (\<lambda>t. \<not> phone_handler_attached t \<and> \<not> email_handler_attached t)
        [''DRO Director'', ''Virginia Mewborn'', ''Phone: 917-670-8334'', ''Email: Virginia.Mewborn'']
   \<and> list_all (\<lambda>p. case node_label p of Inl e \<Rightarrow> False
                | Inr l \<Rightarrow> \<not> sublist phone_marker l \<and> \<not> sublist email_marker l) sample_roster
   \<and> phone_handler_attached (phone_marker @ '' 917-670-8334'')
   \<and> email_handler_attached (email_marker @ '' Virginia.Mewborn'')
   \<and> sublist phone_marker html_content
   \<and> sublist email_marker html_content"
proof -
  have a: "node_label (hd sample_roster) =
     Inr ''<<B>DRO Director</B><BR/><B>Virginia Mewborn</B><BR/><FONT POINT-SIZE='9'>Phone: 917-670-8334</FONT><BR/><FONT POINT-SIZE='9'>Email: Virginia.Mewborn</FONT>>''"
    by code_simp
  have b: "list_all (\<lambda>t. \<not> phone_handler_attached t \<and> \<not> email_handler_attached t)
        [''DRO Director'', ''Virginia Mewborn'', ''Phone: 917-670-8334'', ''Email: Virginia.Mewborn'']"
    by code_simp
  have c: "list_all (\<lambda>p. case node_label p of Inl e \<Rightarrow> False
                | Inr l \<Rightarrow> \<not> sublist phone_marker l \<and> \<not> sublist email_marker l) sample_roster"
    by code_simp
  have d: "phone_handler_attached (phone_marker @ '' 917-670-8334'')"
    "email_handler_attached (email_marker @ '' Virginia.Mewborn'')"
    by code_simp+
  from script_has_markers have e: "sublist phone_marker html_content"
    "sublist email_marker html_content" by simp_all
  from a b c d e show ?thesis by (intro conjI)
qed

end
